theory Spec2Isabelle
  imports Main "HOL-Library.Word"
begin

unbundle bit_operations_syntax

section \<open>Data model\<close>

text \<open>
  \<^verbatim>\<open>unsigned char\<close> is an 8-bit word, \<^verbatim>\<open>unsigned int\<close> a 32-bit word and
  \<^verbatim>\<open>wchar_t\<close> a 16-bit word (the code targets the Windows CRT: \<^verbatim>\<open>mbstowcs_s\<close>,
  \<^verbatim>\<open>memcpy_s\<close>, \<^verbatim>\<open>errno_t\<close>). A \<^verbatim>\<open>std::string\<close> is a \<open>string\<close>, a
  \<^verbatim>\<open>secure_vector<unsigned char>\<close> a list of bytes and a \<^verbatim>\<open>secure_wstring\<close> a list
  of wide characters.
\<close>

type_synonym byte = "8 word"
type_synonym uint = "32 word"
type_synonym wchar = "16 word"
type_synonym secure_byte_vector = "byte list"
type_synonym secure_wstring = "wchar list"

text \<open>
  Every \<^verbatim>\<open>throw\<close> of the source is a value of this type; \<open>std_exception msg\<close> is a
  \<^verbatim>\<open>std::exception\<close> (or the file's own \<^verbatim>\<open>exception\<close>) whose \<^verbatim>\<open>what()\<close> is \<open>msg\<close>.
\<close>

datatype exception =
    std_exception string
  | bad_alloc
  | length_error
  | encryptionException string
  | unknown_exception

text \<open>
  \<^verbatim>\<open>c_str()\<close> read as a C string: the characters before the first NUL.
\<close>

definition c_str :: "string \<Rightarrow> string" where
  "c_str s = takeWhile (\<lambda>c. c \<noteq> CHR 0x00) s"

section \<open>Codec: \<^verbatim>\<open>string_to_binary\<close> and \<^verbatim>\<open>binary_to_string\<close> (msPassport.cpp)\<close>

text \<open>
  \<^verbatim>\<open>isxdigit\<close>, \<^verbatim>\<open>toupper\<close> and \<^verbatim>\<open>tolower\<close> of the C locale, on the character's
  code. A byte above 127 is no hex digit and has no other case.
\<close>

definition isxdigit :: "char \<Rightarrow> bool" where
  "isxdigit c =
     (let n = (of_char c :: nat)
      in (48 \<le> n \<and> n \<le> 57) \<or> (65 \<le> n \<and> n \<le> 70) \<or> (97 \<le> n \<and> n \<le> 102))"

definition toupper :: "char \<Rightarrow> char" where
  "toupper c =
     (let n = (of_char c :: nat)
      in if 97 \<le> n \<and> n \<le> 122 then char_of (n - 32) else c)"

definition tolower :: "char \<Rightarrow> char" where
  "tolower c =
     (let n = (of_char c :: nat)
      in if 65 \<le> n \<and> n \<le> 90 then char_of (n + 32) else c)"

text \<open>
  \<^verbatim>\<open>static unsigned int nibbles[] = {0, 1, ..., 9, 0, 0, 0, 0, 0, 0, 0, 10, ..., 15}\<close>,
  indexed by \<^verbatim>\<open>toupper(c) - '0'\<close>.
\<close>

definition nibbles :: "uint list" where
  "nibbles = [0, 1, 2, 3, 4, 5, 6, 7, 8, 9, 0, 0, 0, 0, 0, 0, 0, 10, 11, 12, 13, 14, 15]"

definition nibble_of :: "char \<Rightarrow> uint" where
  "nibble_of c = nibbles ! (of_char (toupper c) - 48)"

text \<open>
  \<^verbatim>\<open>throw std::exception(err.c_str())\<close>: \<open>err\<close> is built from the prefix, the
  character and the suffix, and the exception takes it as a C string, so its
  \<^verbatim>\<open>what()\<close> ends before the first NUL of \<open>err\<close>.
\<close>

definition invalid_character :: "char \<Rightarrow> exception" where
  "invalid_character c =
     (let err = ''Invalid character: '' @ [CHR 0x27] @ [c] @ [CHR 0x27] @ '' is not a valid hex digit''
      in std_exception (c_str err))"

text \<open>
  The loop of \<^verbatim>\<open>string_to_binary\<close>: the iterator advances by two, \<open>retval\<close> is the
  vector built so far. The first character of a pair must be a hex digit; the second
  one is added only when it exists and is a hex digit.
\<close>

fun string_to_binary_loop :: "string \<Rightarrow> secure_byte_vector \<Rightarrow> exception + secure_byte_vector" where
  "string_to_binary_loop [] retval = Inr retval"
| "string_to_binary_loop [c] retval =
     (if isxdigit c
      then Inr (retval @ [ucast (push_bit 4 (nibble_of c))])
      else Inl (invalid_character c))"
| "string_to_binary_loop (c # d # rest) retval =
     (if isxdigit c
      then (let v = (ucast (push_bit 4 (nibble_of c)) :: byte);
                v' = (if isxdigit d then v + ucast (nibble_of d) else v)
            in string_to_binary_loop rest (retval @ [v']))
      else Inl (invalid_character c))"

definition string_to_binary :: "string \<Rightarrow> exception + secure_byte_vector" where
  "string_to_binary source = string_to_binary_loop source []"

text \<open>
  \<^verbatim>\<open>binary_to_string\<close>: the loop variable has type \<^verbatim>\<open>char\<close>, so each byte is first
  converted to a signed char and then to \<^verbatim>\<open>unsigned\<close> (sign extension) before the
  shift and the mask.
\<close>

definition syms :: "string" where
  "syms = ''0123456789ABCDEF''"

definition byte_to_syms :: "byte \<Rightarrow> string" where
  "byte_to_syms it =
     [syms ! unat ((drop_bit 4 (scast it :: uint)) AND 0xf),
      syms ! unat ((scast it :: uint) AND 0xf)]"

definition binary_to_string :: "secure_byte_vector \<Rightarrow> string" where
  "binary_to_string source = concat (map byte_to_syms source)"

text \<open>
  The numeric value of a hex digit as the specification names it (\<open>hexValue\<close>):
  \<open>0\<close> to \<open>9\<close> for the decimal digits, \<open>10\<close> to \<open>15\<close> for the letters of
  either case. It is compared below with the table lookup of the source.
\<close>

definition hexValue :: "char \<Rightarrow> byte" where
  "hexValue c =
     (let n = (of_char c :: nat)
      in if 48 \<le> n \<and> n \<le> 57 then of_nat (n - 48)
         else if 65 \<le> n \<and> n \<le> 70 then of_nat (n - 55)
         else if 97 \<le> n \<and> n \<le> 102 then of_nat (n - 87)
         else 0)"

section \<open>\<^verbatim>\<open>util::zallocator\<close> (NodeMsPassport.hpp)\<close>

text \<open>
  The allocator works on raw memory, so the model has an explicit store: the byte at
  every address, and the blocks handed out by \<^verbatim>\<open>::operator new\<close> and not yet given
  back (base address to size in bytes). \<^verbatim>\<open>size_t\<close> is a natural number below
  \<open>2 ^ 64\<close>; its multiplication wraps.
\<close>

record heap =
  bytes :: "nat \<Rightarrow> byte"
  blocks :: "nat \<rightharpoonup> nat"

definition size_max :: nat where
  "size_max = 2 ^ 64 - 1"

definition size_mult :: "nat \<Rightarrow> nat \<Rightarrow> nat" where
  "size_mult a b = (a * b) mod (size_max + 1)"

text \<open>
  \<^verbatim>\<open>::operator new(sz)\<close> either throws \<^verbatim>\<open>std::bad_alloc\<close> or returns the base of a
  fresh block. Which address it picks is the runtime's choice, so the choice is an
  argument: \<open>None\<close> when it throws, \<open>Some p\<close> for the address.
\<close>

definition operator_new :: "nat option \<Rightarrow> heap \<Rightarrow> nat \<Rightarrow> exception + (nat \<times> heap)" where
  "operator_new choice h sz =
     (case choice of
        None \<Rightarrow> Inl bad_alloc
      | Some p \<Rightarrow> Inr (p, h\<lparr>blocks := (blocks h)(p \<mapsto> sz)\<rparr>))"

definition operator_delete :: "heap \<Rightarrow> nat \<Rightarrow> heap" where
  "operator_delete h p = h\<lparr>blocks := (blocks h)(p := None)\<rparr>"

text \<open>
  \<^verbatim>\<open>std::fill_n(first, count, value)\<close> on a \<^verbatim>\<open>volatile char *\<close>: one store per byte.
\<close>

fun fill_n :: "(nat \<Rightarrow> byte) \<Rightarrow> nat \<Rightarrow> nat \<Rightarrow> byte \<Rightarrow> (nat \<Rightarrow> byte)" where
  "fill_n m first 0 v = m"
| "fill_n m first (Suc count) v = fill_n (m(first := v)) (Suc first) count v"

text \<open>
  \<open>allocate\<close> and \<open>deallocate\<close> of \<^verbatim>\<open>zallocator<T>\<close>; \<open>sizeof_T\<close> is \<^verbatim>\<open>sizeof(T)\<close>.
\<close>

definition allocate :: "nat \<Rightarrow> nat option \<Rightarrow> heap \<Rightarrow> nat \<Rightarrow> exception + (nat \<times> heap)" where
  "allocate sizeof_T choice h n =
     (if n > size_max div sizeof_T then Inl bad_alloc
      else operator_new choice h (size_mult n sizeof_T))"

definition deallocate :: "nat \<Rightarrow> heap \<Rightarrow> nat \<Rightarrow> nat \<Rightarrow> heap" where
  "deallocate sizeof_T h p n =
     (let h' = h\<lparr>bytes := fill_n (bytes h) p (size_mult n sizeof_T) 0\<rparr>
      in operator_delete h' p)"

section \<open>\<^verbatim>\<open>passport::OperationResult\<close> and the biometric operations (NodeMsPassport.hpp)\<close>

record OperationResult =
  data :: secure_byte_vector
  status :: int

definition OperationResult_ok :: "OperationResult \<Rightarrow> bool" where
  "OperationResult_ok res = (status res = 0)"

text \<open>
  The functions of \<^verbatim>\<open>passport::unmanaged\<close> are only declared in the header; they are
  arguments of the model. A call either throws or returns the status, the size and the
  buffer it points to, read as the byte at each offset.
\<close>

record native_result =
  nr_status :: int
  nr_size :: int
  nr_data :: "nat \<Rightarrow> byte"

text \<open>
  The statements after the native call, the same in all four wrappers:
  \<^verbatim>\<open>if (status == 0) { dt.resize(size); memcpy(dt.data(), data, size); }\<close> and
  \<^verbatim>\<open>return OperationResult(dt, status)\<close>. A negative \<^verbatim>\<open>int\<close> converts to a
  \<^verbatim>\<open>size_t\<close> above \<^verbatim>\<open>max_size()\<close>, and \<^verbatim>\<open>resize\<close> throws \<^verbatim>\<open>std::length_error\<close>.
\<close>

definition copy_native_result :: "native_result \<Rightarrow> exception + OperationResult" where
  "copy_native_result r =
     (if nr_status r = 0
      then (if nr_size r < 0 then Inl length_error
            else Inr \<lparr>data = map (nr_data r) [0..<nat (nr_size r)], status = nr_status r\<rparr>)
      else Inr \<lparr>data = [], status = nr_status r\<rparr>)"

definition createPassportKey ::
  "(string \<Rightarrow> exception + native_result) \<Rightarrow> string \<Rightarrow> exception + OperationResult" where
  "createPassportKey unmanaged_createPassportKey accountId =
     (case unmanaged_createPassportKey (c_str accountId) of
        Inl e \<Rightarrow> Inl e
      | Inr r \<Rightarrow> copy_native_result r)"

definition passportSign ::
  "(string \<Rightarrow> secure_byte_vector \<Rightarrow> exception + native_result) \<Rightarrow> string \<Rightarrow> secure_byte_vector
     \<Rightarrow> exception + OperationResult" where
  "passportSign unmanaged_passportSign accountId challenge =
     (case unmanaged_passportSign (c_str accountId) challenge of
        Inl e \<Rightarrow> Inl e
      | Inr r \<Rightarrow> copy_native_result r)"

definition getPublicKey ::
  "(string \<Rightarrow> exception + native_result) \<Rightarrow> string \<Rightarrow> exception + OperationResult" where
  "getPublicKey unmanaged_getPublicKey accountId =
     (case unmanaged_getPublicKey (c_str accountId) of
        Inl e \<Rightarrow> Inl e
      | Inr r \<Rightarrow> copy_native_result r)"

definition getPublicKeyHash ::
  "(string \<Rightarrow> exception + native_result) \<Rightarrow> string \<Rightarrow> exception + OperationResult" where
  "getPublicKeyHash unmanaged_getPublicKeyHash accountId =
     (case unmanaged_getPublicKeyHash (c_str accountId) of
        Inl e \<Rightarrow> Inl e
      | Inr r \<Rightarrow> copy_native_result r)"

text \<open>
  \<^verbatim>\<open>convertToObject\<close> (msPassport.cpp): the object handed to the caller; its \<open>data\<close>
  property is a string or \<^verbatim>\<open>null\<close> (\<open>None\<close>).
\<close>

record js_object =
  obj_status :: int
  obj_ok :: bool
  obj_data :: "string option"

definition convertToObject :: "OperationResult \<Rightarrow> js_object" where
  "convertToObject res =
     \<lparr>obj_status = status res,
      obj_ok = OperationResult_ok res,
      obj_data = (if status res = 0 then Some (binary_to_string (data res)) else None)\<rparr>"

section \<open>\<^verbatim>\<open>secure_wstring\<close> (NodeMsPassport.hpp)\<close>

text \<open>
  \<^verbatim>\<open>sizeof(wchar_t)\<close> is 2 on the platform of the CRT functions the class calls, and a
  wide character lies in memory low byte first.
\<close>

definition sizeof_wchar_t :: nat where
  "sizeof_wchar_t = 2"

definition wchar_bytes :: "wchar \<Rightarrow> byte list" where
  "wchar_bytes w = [ucast w, ucast (drop_bit 8 w)]"

definition bytes_of_wstring :: "secure_wstring \<Rightarrow> byte list" where
  "bytes_of_wstring ws = concat (map wchar_bytes ws)"

fun wstring_of_bytes :: "byte list \<Rightarrow> secure_wstring" where
  "wstring_of_bytes (lo # hi # rest) = (ucast lo OR push_bit 8 (ucast hi)) # wstring_of_bytes rest"
| "wstring_of_bytes [lo] = []"
| "wstring_of_bytes [] = []"

definition ERANGE :: int where
  "ERANGE = 34"

definition EILSEQ :: int where
  "EILSEQ = 42"

text \<open>
  \<^verbatim>\<open>resize(n)\<close> of a vector or string: keeps the first \<open>n\<close> elements, pads with zero.
\<close>

definition resize :: "'a::zero list \<Rightarrow> nat \<Rightarrow> 'a list" where
  "resize xs n = take n xs @ replicate (n - length xs) 0"

text \<open>
  \<^verbatim>\<open>memcpy_s(dest, destSize, src, count)\<close> of the CRT, by its documented contract,
  returning the error code and the new contents of \<open>dest\<close>: nothing is done for
  \<open>count = 0\<close>; when \<open>destSize < count\<close> the destination is zeroed and \<^verbatim>\<open>ERANGE\<close> is
  returned; otherwise \<open>count\<close> bytes are copied. The null-pointer cases of the contract
  are left out: both callers pass \<^verbatim>\<open>data()\<close> or \<^verbatim>\<open>c_str()\<close> of a string as one
  pointer, and the other pointer can be null only for an empty vector, where \<open>count\<close>
  is \<open>0\<close>. On the \<^verbatim>\<open>ERANGE\<close> path the CRT first calls the invalid-parameter handler;
  the model is the path on which the handler returns, the only one on which the caller
  goes on.
\<close>

definition memcpy_s :: "byte list \<Rightarrow> nat \<Rightarrow> byte list \<Rightarrow> nat \<Rightarrow> int \<times> byte list" where
  "memcpy_s dest destSize src count =
     (if count = 0 then (0, dest)
      else if destSize < count then (ERANGE, replicate destSize 0 @ drop destSize dest)
      else (0, take count src @ drop count dest))"

text \<open>
  \<^verbatim>\<open>mbstowcs_s(&outSize, wcstr, sizeInWords, mbstr, count)\<close> of the CRT, by its
  documented contract, returning the error code, \<^verbatim>\<open>outSize\<close> and the new contents of
  \<open>wcstr\<close>. The conversion of the current locale is an argument: \<open>locale_conv\<close> gives
  the wide characters of a multibyte string, or \<open>None\<close> when the string has an invalid
  multibyte sequence. On an invalid sequence the destination is made the empty string,
  \<^verbatim>\<open>outSize\<close> is \<open>0\<close> and \<^verbatim>\<open>EILSEQ\<close> is returned; when the converted string with its
  terminator does not fit, the same with \<^verbatim>\<open>ERANGE\<close>; otherwise at most \<open>count\<close> wide
  characters and a terminator are stored and \<^verbatim>\<open>outSize\<close> counts the terminator.
\<close>

definition mbstowcs_s ::
  "(string \<Rightarrow> wchar list option) \<Rightarrow> wchar list \<Rightarrow> nat \<Rightarrow> string \<Rightarrow> nat \<Rightarrow> int \<times> nat \<times> wchar list" where
  "mbstowcs_s locale_conv wcstr sizeInWords mbstr count =
     (case locale_conv mbstr of
        None \<Rightarrow> (EILSEQ, 0, 0 # tl wcstr)
      | Some ws \<Rightarrow>
          (let n = min count (length ws)
           in if sizeInWords < n + 1 then (ERANGE, 0, 0 # tl wcstr)
              else (0, n + 1, take n ws @ [0] @ drop (n + 1) wcstr)))"

text \<open>
  A constructor gives the string it builds and what it wrote to \<^verbatim>\<open>stderr\<close>: the
  messages passed to \<^verbatim>\<open>perror\<close>, in order.
\<close>

record constructed =
  wstr :: secure_wstring
  diagnostics :: "string list"

definition space :: wchar where
  "space = 0x20"

text \<open>
  \<^verbatim>\<open>secure_wstring(const std::string &str)\<close>: the call it makes, and the constructor.
\<close>

definition secure_wstring_of_string_mbstowcs_s ::
  "(string \<Rightarrow> wchar list option) \<Rightarrow> string \<Rightarrow> int \<times> nat \<times> wchar list" where
  "secure_wstring_of_string_mbstowcs_s locale_conv str =
     (let this = replicate (length str + 1) space
      in mbstowcs_s locale_conv this (length this) (c_str str) (length str))"

definition secure_wstring_of_string :: "(string \<Rightarrow> wchar list option) \<Rightarrow> string \<Rightarrow> constructed" where
  "secure_wstring_of_string locale_conv str =
     (case secure_wstring_of_string_mbstowcs_s locale_conv str of
        (err, outSize, this) \<Rightarrow>
          \<lparr>wstr = resize this outSize,
           diagnostics = (if err \<noteq> 0 then [''Error creating wide string''] else [])\<rparr>)"

text \<open>
  \<^verbatim>\<open>secure_wstring(const secure_vector<unsigned char> &data)\<close>: the call it makes, and
  the constructor. It writes nothing to \<^verbatim>\<open>stderr\<close>.
\<close>

definition secure_wstring_of_bytes_memcpy_s :: "secure_byte_vector \<Rightarrow> int \<times> byte list" where
  "secure_wstring_of_bytes_memcpy_s d =
     (let this = replicate (length d div sizeof_wchar_t) space
      in memcpy_s (bytes_of_wstring this) (length this * sizeof_wchar_t) d (length d))"

definition secure_wstring_of_bytes :: "secure_byte_vector \<Rightarrow> constructed" where
  "secure_wstring_of_bytes d =
     (case secure_wstring_of_bytes_memcpy_s d of
        (err, buf) \<Rightarrow>
          (let this = wstring_of_bytes buf;
               ok = (err = 0)
           in \<lparr>wstr = (if \<not> ok then resize this 0 else this), diagnostics = []\<rparr>))"

definition getBytes :: "secure_wstring \<Rightarrow> secure_byte_vector" where
  "getBytes this =
     (let tmp = resize [] (length this * sizeof_wchar_t)
      in case memcpy_s tmp (length tmp) (bytes_of_wstring this) (length this * sizeof_wchar_t) of
           (err, tmp') \<Rightarrow> (let ok = (err = 0) in if \<not> ok then resize tmp' 0 else tmp'))"

section \<open>\<^verbatim>\<open>passwords\<close> (NodeMsPassport.hpp)\<close>

text \<open>
  The functions of \<^verbatim>\<open>passwords::util\<close> are only declared; they are arguments.
  \<^verbatim>\<open>util::encrypt(data, out)\<close> takes \<open>data\<close> by const reference and gives its return
  value and the pointer \<open>out\<close> (\<open>None\<close> for \<^verbatim>\<open>nullptr\<close>). The wrappers give their
  return value and the caller's buffer after the call; \<open>None\<close> is the dereference of
  a null \<open>out\<close>, which has no defined behaviour.
\<close>

definition encrypt ::
  "(secure_wstring \<Rightarrow> bool \<times> secure_wstring option) \<Rightarrow> secure_wstring \<Rightarrow> (bool \<times> secure_wstring) option" where
  "encrypt util_encrypt d =
     (case util_encrypt d of
        (ok, out) \<Rightarrow>
          if \<not> ok then Some (False, d)
          else (case out of None \<Rightarrow> None | Some w \<Rightarrow> Some (True, w)))"

definition decrypt ::
  "(secure_wstring \<Rightarrow> bool \<times> secure_wstring option) \<Rightarrow> secure_wstring \<Rightarrow> (bool \<times> secure_wstring) option" where
  "decrypt util_decrypt d =
     (case util_decrypt d of
        (ok, out) \<Rightarrow>
          if \<not> ok then Some (False, d)
          else (case out of None \<Rightarrow> None | Some w \<Rightarrow> Some (True, w)))"

text \<open>
  \<^verbatim>\<open>util::isEncrypted(data, ok)\<close> gives its return value and the flag \<open>ok\<close>.
\<close>

definition isEncrypted :: "(secure_wstring \<Rightarrow> bool \<times> bool) \<Rightarrow> secure_wstring \<Rightarrow> exception + bool" where
  "isEncrypted util_isEncrypted d =
     (case util_isEncrypted d of
        (res, ok) \<Rightarrow>
          if \<not> ok then Inl (encryptionException ''Could not check if data is encrypted'')
          else Inr res)"

section \<open>The async workers (msPassport.cpp)\<close>

text \<open>
  A worker is the state of a \<^verbatim>\<open>Napi::AsyncWorker\<close> subclass: the error string of the
  base class (set by \<^verbatim>\<open>SetError\<close>), the calls made so far on its
  \<^verbatim>\<open>Napi::Promise::Deferred\<close>, and the fields of the subclass.
\<close>

datatype settlement = Resolve js_object | Reject string

record worker =
  error_message :: string
  deferred :: "settlement list"
  account :: string
  w_status :: int
  w_data :: string

record sign_worker = worker +
  challenge :: string

text \<open>
  \<^verbatim>\<open>what()\<close> of the exceptions that derive from \<^verbatim>\<open>std::exception\<close>.
\<close>

fun what :: "exception \<Rightarrow> string" where
  "what (std_exception msg) = msg"
| "what (encryptionException msg) = msg"
| "what bad_alloc = ''bad allocation''"
| "what length_error = ''vector too long''"
| "what unknown_exception = []"

definition SetError :: "('a worker_scheme) \<Rightarrow> string \<Rightarrow> 'a worker_scheme" where
  "SetError w msg = w\<lparr>error_message := msg\<rparr>"

text \<open>
  The two handlers that close \<^verbatim>\<open>Execute\<close>: \<^verbatim>\<open>catch (const std::exception &e)\<close>
  passes \<^verbatim>\<open>e.what()\<close> to \<^verbatim>\<open>SetError\<close>, \<^verbatim>\<open>catch (...)\<close> a fixed message.
\<close>

fun catch_message :: "exception \<Rightarrow> string" where
  "catch_message unknown_exception = ''An unknown exception occurred''"
| "catch_message e = what e"

definition catch_all :: "('a worker_scheme) \<Rightarrow> exception \<Rightarrow> 'a worker_scheme" where
  "catch_all w e = SetError w (catch_message e)"

definition createPassportKeyWorker :: "string \<Rightarrow> worker" where
  "createPassportKeyWorker acc =
     \<lparr>error_message = [], deferred = [], account = acc, w_status = 1, w_data = []\<rparr>"

definition passportSignWorker :: "string \<Rightarrow> string \<Rightarrow> sign_worker" where
  "passportSignWorker acc chal =
     \<lparr>error_message = [], deferred = [], account = acc, w_status = 1, w_data = [], challenge = chal\<rparr>"

definition store_result :: "('a worker_scheme) \<Rightarrow> OperationResult \<Rightarrow> 'a worker_scheme" where
  "store_result w res =
     (let w' = (if OperationResult_ok res then w\<lparr>w_data := binary_to_string (data res)\<rparr> else w)
      in w'\<lparr>w_status := status res\<rparr>)"

text \<open>
  \<^verbatim>\<open>Execute\<close> is a \<^verbatim>\<open>try\<close> block and the two handlers. The block either throws or
  reaches its end with the operation's result, which it stores in the worker.
\<close>

definition createPassportKeyWorker_try ::
  "(string \<Rightarrow> exception + native_result) \<Rightarrow> worker \<Rightarrow> exception + OperationResult" where
  "createPassportKeyWorker_try unmanaged_createPassportKey w =
     createPassportKey unmanaged_createPassportKey (account w)"

definition createPassportKeyWorker_Execute ::
  "(string \<Rightarrow> exception + native_result) \<Rightarrow> worker \<Rightarrow> worker" where
  "createPassportKeyWorker_Execute unmanaged_createPassportKey w =
     (case createPassportKeyWorker_try unmanaged_createPassportKey w of
        Inr res \<Rightarrow> store_result w res
      | Inl e \<Rightarrow> catch_all w e)"

definition passportSignWorker_try ::
  "(string \<Rightarrow> secure_byte_vector \<Rightarrow> exception + native_result) \<Rightarrow> sign_worker
     \<Rightarrow> exception + OperationResult" where
  "passportSignWorker_try unmanaged_passportSign w =
     (case string_to_binary (challenge w) of
        Inl e \<Rightarrow> Inl e
      | Inr challenge_vec \<Rightarrow> passportSign unmanaged_passportSign (account w) challenge_vec)"

definition passportSignWorker_Execute ::
  "(string \<Rightarrow> secure_byte_vector \<Rightarrow> exception + native_result) \<Rightarrow> sign_worker \<Rightarrow> sign_worker" where
  "passportSignWorker_Execute unmanaged_passportSign w =
     (case passportSignWorker_try unmanaged_passportSign w of
        Inr res \<Rightarrow> store_result w res
      | Inl e \<Rightarrow> catch_all w e)"

definition OnOK :: "('a worker_scheme) \<Rightarrow> 'a worker_scheme" where
  "OnOK w =
     (let obj = \<lparr>obj_status = w_status w,
                 obj_ok = (w_status w = 0),
                 obj_data = (if w_status w = 0 then Some (w_data w) else None)\<rparr>
      in w\<lparr>deferred := deferred w @ [Resolve obj]\<rparr>)"

definition OnError :: "('a worker_scheme) \<Rightarrow> string \<Rightarrow> 'a worker_scheme" where
  "OnError w err = w\<lparr>deferred := deferred w @ [Reject err]\<rparr>"

text \<open>
  \<^verbatim>\<open>Napi::AsyncWorker\<close> is the library's class. After \<^verbatim>\<open>Queue()\<close> it runs
  \<^verbatim>\<open>Execute\<close> on a worker thread and then, on the caller's thread, calls \<^verbatim>\<open>OnOK\<close>
  when the error string is empty and \<^verbatim>\<open>OnError\<close> with the error otherwise. A request
  is the constructor, \<^verbatim>\<open>Queue()\<close> and that completion, in this order.
\<close>

definition OnWorkComplete :: "('a worker_scheme) \<Rightarrow> 'a worker_scheme" where
  "OnWorkComplete w = (if error_message w = [] then OnOK w else OnError w (error_message w))"

definition createPassportKeyAsync ::
  "(string \<Rightarrow> exception + native_result) \<Rightarrow> string \<Rightarrow> worker" where
  "createPassportKeyAsync unmanaged_createPassportKey acc =
     OnWorkComplete (createPassportKeyWorker_Execute unmanaged_createPassportKey (createPassportKeyWorker acc))"

definition passportSignAsync ::
  "(string \<Rightarrow> secure_byte_vector \<Rightarrow> exception + native_result) \<Rightarrow> string \<Rightarrow> string \<Rightarrow> sign_worker" where
  "passportSignAsync unmanaged_passportSign acc chal =
     OnWorkComplete (passportSignWorker_Execute unmanaged_passportSign (passportSignWorker acc chal))"

text \<open>
  A completion is a failure when the promise is rejected, or resolved with an object
  whose \<open>ok\<close> is false.
\<close>

fun failure_completion :: "settlement \<Rightarrow> bool" where
  "failure_completion (Reject err) = True"
| "failure_completion (Resolve obj) = (\<not> obj_ok obj)"

section \<open>Concrete inputs\<close>

text \<open>
  Values at which the statements below are evaluated: a native buffer holding the
  given bytes, a native call that returns the same result for every account, and two
  heaps.
\<close>

definition buffer_of :: "byte list \<Rightarrow> nat \<Rightarrow> byte" where
  "buffer_of bs off = (if off < length bs then bs ! off else 0)"

definition engine_returning :: "native_result \<Rightarrow> string \<Rightarrow> exception + native_result" where
  "engine_returning r accountId = Inr r"

definition filled_heap :: "byte \<Rightarrow> nat \<Rightarrow> nat \<Rightarrow> heap" where
  "filled_heap v p sz = \<lparr>bytes = (\<lambda>a. v), blocks = [p \<mapsto> sz]\<rparr>"

definition empty_heap :: heap where
  "empty_heap = \<lparr>bytes = (\<lambda>a. 0), blocks = Map.empty\<rparr>"

text \<open>
  A locale conversion that takes the 7-bit characters and rejects every other byte,
  and \<^verbatim>\<open>passwords::util\<close> functions that report failure.
\<close>

definition ascii_conv :: "string \<Rightarrow> wchar list option" where
  "ascii_conv s =
     (if list_all (\<lambda>c. (of_char c :: nat) < 128) s then Some (map (\<lambda>c. of_nat (of_char c)) s) else None)"

definition util_failing :: "secure_wstring \<Rightarrow> bool \<times> secure_wstring option" where
  "util_failing d = (False, None)"

definition util_undetermined :: "secure_wstring \<Rightarrow> bool \<times> bool" where
  "util_undetermined d = (False, False)"

section \<open>Properties of the codec\<close>

lemma syms_nth: "k < 16 \<Longrightarrow> isxdigit (syms ! k) \<and> nibble_of (syms ! k) = of_nat k \<and> toupper (syms ! k) = syms ! k"
proof -
  assume "k < 16"
  then consider "k = 0" | "k = 1" | "k = 2" | "k = 3" | "k = 4" | "k = 5" | "k = 6" | "k = 7"
    | "k = 8" | "k = 9" | "k = 10" | "k = 11" | "k = 12" | "k = 13" | "k = 14" | "k = 15"
    by atomize_elim arith
  then show ?thesis
    by cases (simp_all add: syms_def isxdigit_def nibble_of_def nibbles_def toupper_def)
qed

lemma fifteen_mask: "(15 :: 'a::len word) = mask 4" by (simp add: mask_eq_exp_minus_1)

lemma hi_eq: "(drop_bit 4 (scast (b::byte) :: uint)) AND 0xf = ucast (drop_bit 4 b)"
  unfolding fifteen_mask
proof (rule bit_word_eqI)
  fix n assume "n < LENGTH(32)"
  show "bit (drop_bit 4 (scast b :: uint) AND mask 4) n = bit (ucast (drop_bit 4 b) :: uint) n"
  proof (cases "n < 4")
    case True
    then have "min 7 (4 + n) = 4 + n" by simp
    with True show ?thesis by (simp add: bit_simps)
  next
    case False
    then have "\<not> bit b (4 + n)" using bit_imp_le_length [of b "4 + n"] by auto
    with False show ?thesis by (simp add: bit_simps)
  qed
qed

lemma lo_eq: "(scast (b::byte) :: uint) AND 0xf = ucast (take_bit 4 b)"
  unfolding fifteen_mask
  by (rule bit_word_eqI) (auto simp: bit_simps)

lemma uc_push: "(ucast (push_bit 4 (ucast (x::byte) :: uint)) :: byte) = push_bit 4 x"
  by (rule bit_word_eqI) (auto simp: bit_simps)

lemma uc_uc: "(ucast (ucast (x::byte) :: uint) :: byte) = x"
  by (rule bit_word_eqI) (auto simp: bit_simps)

lemma and15_lt: "unat ((x::uint) AND 0xf) < 16"
  using word_and_le1 [of x 15] by (simp add: word_le_nat_alt)

lemma nibbles_join:
  "(ucast (push_bit 4 ((drop_bit 4 (scast (b::byte) :: uint)) AND 0xf)) :: byte)
     + ucast ((scast b :: uint) AND 0xf) = b"
  by (simp only: hi_eq lo_eq uc_push uc_uc bits_ident)

lemma loop_acc:
  "string_to_binary_loop s acc =
     (case string_to_binary_loop s [] of Inl e \<Rightarrow> Inl e | Inr bs \<Rightarrow> Inr (acc @ bs))"
proof (induction s arbitrary: acc rule: induct_list012)
  case 1
  then show ?case by simp
next
  case (2 c)
  then show ?case by simp
next
  case (3 c d rest)
  show ?case
  proof (cases "isxdigit c")
    case False
    then show ?thesis by simp
  next
    case True
    define v where "v = (if isxdigit d then (ucast (push_bit 4 (nibble_of c)) :: byte) + ucast (nibble_of d) else ucast (push_bit 4 (nibble_of c)))"
    have a: "string_to_binary_loop (c # d # rest) acc = string_to_binary_loop rest (acc @ [v])" for acc
      using True by (simp add: v_def Let_def)
    show ?thesis
      unfolding a
      by (subst "3.IH"(1) [of "acc @ [v]"], subst "3.IH"(1) [of "[] @ [v]"]) (simp split: sum.splits)
  qed
qed

lemma string_to_binary_Nil: "string_to_binary [] = Inr []"
  by (simp add: string_to_binary_def)

lemma string_to_binary_pair:
  "isxdigit c \<Longrightarrow> isxdigit d \<Longrightarrow>
   string_to_binary (c # d # rest) =
     (case string_to_binary rest of Inl e \<Rightarrow> Inl e
      | Inr bs \<Rightarrow> Inr ((ucast (push_bit 4 (nibble_of c)) + ucast (nibble_of d)) # bs))"
  unfolding string_to_binary_def
  by (simp add: Let_def) (subst loop_acc, simp split: sum.splits)

lemma byte_to_syms_decode:
  "string_to_binary (byte_to_syms b @ rest) =
     (case string_to_binary rest of Inl e \<Rightarrow> Inl e | Inr bs \<Rightarrow> Inr (b # bs))"
proof -
  let ?h = "(drop_bit 4 (scast b :: uint)) AND 0xf"
  let ?l = "(scast b :: uint) AND 0xf"
  have h: "isxdigit (syms ! unat ?h)" "nibble_of (syms ! unat ?h) = ?h"
    using syms_nth [OF and15_lt [of "drop_bit 4 (scast b)"]] by simp_all
  have l: "isxdigit (syms ! unat ?l)" "nibble_of (syms ! unat ?l) = ?l"
    using syms_nth [OF and15_lt [of "scast b"]] by simp_all
  show ?thesis
    unfolding byte_to_syms_def
    by (simp only: append_Cons append_Nil string_to_binary_pair [OF h(1) l(1)] h(2) l(2) nibbles_join)
qed

lemma roundtrip: "string_to_binary (binary_to_string b) = Inr b"
proof (induction b)
  case Nil
  then show ?case by (simp add: binary_to_string_def string_to_binary_Nil)
next
  case (Cons x xs)
  have "binary_to_string (x # xs) = byte_to_syms x @ binary_to_string xs"
    by (simp add: binary_to_string_def)
  then show ?case using Cons by (simp add: byte_to_syms_decode)
qed


lemma toupper_code:
  "(of_char (toupper c) :: nat) = (if 97 \<le> (of_char c :: nat) \<and> (of_char c :: nat) \<le> 122 then of_char c - 32 else of_char c)"
proof (cases "97 \<le> (of_char c :: nat) \<and> (of_char c :: nat) \<le> 122")
  case True
  then have "(of_char c :: nat) - 32 < 256" by arith
  with True show ?thesis by (simp add: toupper_def Let_def)
next
  case False
  then show ?thesis by (auto simp add: toupper_def Let_def)
qed

lemma tolower_code:
  "(of_char (tolower c) :: nat) = (if 65 \<le> (of_char c :: nat) \<and> (of_char c :: nat) \<le> 90 then of_char c + 32 else of_char c)"
proof (cases "65 \<le> (of_char c :: nat) \<and> (of_char c :: nat) \<le> 90")
  case True
  then have "(of_char c :: nat) + 32 < 256" by arith
  with True show ?thesis by (simp add: tolower_def Let_def)
next
  case False
  then show ?thesis by (auto simp add: tolower_def Let_def)
qed

lemma xdigit_cases:
  assumes "isxdigit c"
  obtains "(of_char c :: nat) = 48" | "(of_char c :: nat) = 49" | "(of_char c :: nat) = 50" | "(of_char c :: nat) = 51"
    | "(of_char c :: nat) = 52" | "(of_char c :: nat) = 53" | "(of_char c :: nat) = 54" | "(of_char c :: nat) = 55"
    | "(of_char c :: nat) = 56" | "(of_char c :: nat) = 57"
    | "(of_char c :: nat) = 65" | "(of_char c :: nat) = 66" | "(of_char c :: nat) = 67" | "(of_char c :: nat) = 68"
    | "(of_char c :: nat) = 69" | "(of_char c :: nat) = 70"
    | "(of_char c :: nat) = 97" | "(of_char c :: nat) = 98" | "(of_char c :: nat) = 99" | "(of_char c :: nat) = 100"
    | "(of_char c :: nat) = 101" | "(of_char c :: nat) = 102"
  using assms unfolding isxdigit_def Let_def by atomize_elim arith

lemma nibble_of_hexValue: "isxdigit c \<Longrightarrow> ucast (nibble_of c) = hexValue c \<and> ucast (push_bit 4 (nibble_of c)) = (push_bit 4 (hexValue c) :: byte)"
  by (erule xdigit_cases) (simp_all add: nibble_of_def toupper_code hexValue_def nibbles_def)

lemma isxdigit_toupper: "isxdigit (toupper c) = isxdigit c"
  unfolding isxdigit_def toupper_code Let_def by auto

lemma isxdigit_tolower: "isxdigit (tolower c) = isxdigit c"
  unfolding isxdigit_def tolower_code Let_def by auto

lemma char_eqI: "(of_char c :: nat) = of_char d \<Longrightarrow> c = d"
  by simp

lemma toupper_idem: "toupper (toupper c) = toupper c"
  by (rule char_eqI) (auto simp add: toupper_code)

lemma toupper_tolower: "toupper (tolower c) = toupper c"
  by (rule char_eqI) (auto simp add: toupper_code tolower_code)

lemma nibble_of_toupper: "nibble_of (toupper c) = nibble_of c"
  by (simp add: nibble_of_def toupper_idem)

lemma nibble_of_tolower: "nibble_of (tolower c) = nibble_of c"
  by (simp add: nibble_of_def toupper_tolower)

lemma loop_case_insensitive:
  assumes f: "\<And>c. isxdigit (f c) = isxdigit c" "\<And>c. nibble_of (f c) = nibble_of c"
  shows "(string_to_binary_loop (map f t) acc = Inr bs) = (string_to_binary_loop t acc = Inr bs)"
proof (induction t arbitrary: acc rule: induct_list012)
  case 1
  then show ?case by simp
next
  case (2 c)
  then show ?case by (simp add: f)
next
  case (3 c d rest)
  then show ?case by (simp add: f Let_def)
qed

lemma upper_canonical: "map toupper (binary_to_string b) = binary_to_string b"
proof -
  have "map toupper (byte_to_syms x) = byte_to_syms x" for x
    using syms_nth [OF and15_lt [of "drop_bit 4 (scast x)"]] syms_nth [OF and15_lt [of "scast x"]]
    by (simp add: byte_to_syms_def)
  then show ?thesis
    by (simp add: binary_to_string_def map_concat comp_def)
qed

lemma length_binary_to_string: "length (binary_to_string b) = 2 * length b"
  by (induction b) (simp_all add: binary_to_string_def byte_to_syms_def)

text \<open>
  Claim C3. Decoding the encoding of any byte sequence gives the sequence back. The
  encoder is case-canonical: its output is unchanged by \<open>toupper\<close>. The decoder takes
  either case: the lower-case form of an encoding decodes to the same bytes, and for
  every text, changing the case of its letters changes neither whether it decodes nor
  the bytes it decodes to.
\<close>

theorem codec_round_trip:
  "string_to_binary (binary_to_string b) = Inr b
   \<and> map toupper (binary_to_string b) = binary_to_string b
   \<and> string_to_binary (map tolower (binary_to_string b)) = Inr b
   \<and> (string_to_binary (map tolower t) = Inr bs) = (string_to_binary t = Inr bs)
   \<and> (string_to_binary (map toupper t) = Inr bs) = (string_to_binary t = Inr bs)"
proof -
  have lo: "(string_to_binary (map tolower s) = Inr r) = (string_to_binary s = Inr r)" for s r
    unfolding string_to_binary_def
    by (rule loop_case_insensitive) (simp_all add: isxdigit_tolower nibble_of_tolower)
  have up: "(string_to_binary (map toupper s) = Inr r) = (string_to_binary s = Inr r)" for s r
    unfolding string_to_binary_def
    by (rule loop_case_insensitive) (simp_all add: isxdigit_toupper nibble_of_toupper)
  show ?thesis
    by (simp only: roundtrip upper_canonical lo up simp_thms)
qed


lemma string_to_binary_step:
  "isxdigit c \<Longrightarrow>
   \<exists>v. \<forall>rest. string_to_binary (c # d # rest) =
     (case string_to_binary rest of Inl e \<Rightarrow> Inl e | Inr bs \<Rightarrow> Inr (v # bs))"
proof -
  assume c: "isxdigit c"
  define v where "v = (if isxdigit d then (ucast (push_bit 4 (nibble_of c)) :: byte) + ucast (nibble_of d) else ucast (push_bit 4 (nibble_of c)))"
  have "string_to_binary (c # d # rest) =
     (case string_to_binary rest of Inl e \<Rightarrow> Inl e | Inr bs \<Rightarrow> Inr (v # bs))" for rest
  proof -
    have a: "string_to_binary_loop (c # d # rest) [] = string_to_binary_loop rest ([] @ [v])"
      using c by (simp add: v_def Let_def)
    have b: "string_to_binary_loop rest ([] @ [v]) =
        (case string_to_binary_loop rest [] of Inl e \<Rightarrow> Inl e | Inr bs \<Rightarrow> Inr (([] @ [v]) @ bs))"
      by (rule loop_acc)
    show ?thesis unfolding string_to_binary_def a b by (simp split: sum.splits)
  qed
  then show ?thesis by blast
qed

text \<open>
  Claim C4 as stated fails: \<open>0G\<close> contains the non-digit \<open>G\<close> and decodes to the
  byte \<open>0\<close>; and the exceptions for \<open>G\<close> at index 0 and at index 2 are the same
  value, so the exception does not tell the position.
\<close>

theorem string_to_binary_nonhex_counterexample:
  "CHR ''G'' \<in> set ''0G'' \<and> \<not> isxdigit CHR ''G'' \<and> string_to_binary ''0G'' = Inr [0]
   \<and> string_to_binary ''G'' = string_to_binary ''00G''"
  by (simp add: string_to_binary_def isxdigit_def nibble_of_def nibbles_def toupper_def)

lemma invalid_character_message:
  "invalid_character c =
     std_exception
       (if c = CHR 0x00 then ''Invalid character: '' @ [CHR 0x27]
        else ''Invalid character: '' @ [CHR 0x27, c, CHR 0x27] @ '' is not a valid hex digit'')"
  by (simp add: invalid_character_def c_str_def)

text \<open>
  Claim C4, as amended. When the character at some even (0-based) index is not a hex
  digit, \<open>string_to_binary\<close> throws a \<^verbatim>\<open>std::exception\<close>. With \<open>c\<close> the character at
  the first such index, its message is the prefix, \<open>c\<close> between single quotes and
  the suffix when \<open>c\<close> is not NUL, and the prefix with the opening quote alone when
  \<open>c\<close> is NUL (the message is a C string and ends there). The message carries no
  position. (What happens to a non-digit at an odd index is not part of this
  statement.)
\<close>

theorem string_to_binary_invalid_even_index:
  assumes "2 * i < length t" and "\<not> isxdigit (t ! (2 * i))" and "\<forall>j<i. isxdigit (t ! (2 * j))"
  shows "string_to_binary t =
     Inl (std_exception
       (if t ! (2 * i) = CHR 0x00 then ''Invalid character: '' @ [CHR 0x27]
        else ''Invalid character: '' @ [CHR 0x27, t ! (2 * i), CHR 0x27] @ '' is not a valid hex digit''))"
proof -
  have "string_to_binary t = Inl (invalid_character (t ! (2 * i)))"
    using assms
  proof (induction i arbitrary: t)
    case 0
    then obtain c rest where t: "t = c # rest" by (cases t) auto
    with 0 have "\<not> isxdigit c" by simp
    then show ?case unfolding t by (cases rest) (simp_all add: string_to_binary_def)
  next
    case (Suc i)
    then obtain c d rest where t: "t = c # d # rest"
      by (cases t; cases "tl t") auto
    from Suc.prems(3) have c: "isxdigit c" unfolding t by auto
    have r1: "2 * i < length rest" using Suc.prems(1) unfolding t by simp
    have r2: "\<not> isxdigit (rest ! (2 * i))" using Suc.prems(2) unfolding t by simp
    have r3: "\<forall>j<i. isxdigit (rest ! (2 * j))"
    proof (intro allI impI)
      fix j assume "j < i"
      then have "isxdigit (t ! (2 * Suc j))" using Suc.prems(3) by auto
      then show "isxdigit (rest ! (2 * j))" unfolding t by simp
    qed
    have ih: "string_to_binary rest = Inl (invalid_character (rest ! (2 * i)))"
      by (rule Suc.IH [OF r1 r2 r3])
    from string_to_binary_step [OF c, of d] obtain v where
      "string_to_binary (c # d # rest) =
         (case string_to_binary rest of Inl e \<Rightarrow> Inl e | Inr bs \<Rightarrow> Inr (v # bs))" by blast
    then show ?case unfolding t by (simp add: ih)
  qed
  then show ?thesis by (simp only: invalid_character_message)
qed

theorem string_to_binary_invalid_even_index_witness:
  "2 * 1 < length ''00G1'' \<and> \<not> isxdigit (''00G1'' ! (2 * 1)) \<and> isxdigit (''00G1'' ! (2 * 0))
   \<and> string_to_binary ''00G1''
       = Inl (std_exception (''Invalid character: '' @ [CHR 0x27, CHR ''G'', CHR 0x27] @ '' is not a valid hex digit''))
   \<and> 2 * 0 < length [CHR 0x00, CHR ''1''] \<and> \<not> isxdigit ([CHR 0x00, CHR ''1''] ! (2 * 0))
   \<and> string_to_binary [CHR 0x00, CHR ''1''] = Inl (std_exception (''Invalid character: '' @ [CHR 0x27]))"
proof -
  have h1: "2 * 1 < length ''00G1''" by simp
  have h2: "\<not> isxdigit (''00G1'' ! (2 * 1))" by (simp add: isxdigit_def)
  have h3: "\<forall>j<1. isxdigit (''00G1'' ! (2 * j))" by (simp add: isxdigit_def)
  have a: "string_to_binary ''00G1''
       = Inl (std_exception (''Invalid character: '' @ [CHR 0x27, CHR ''G'', CHR 0x27] @ '' is not a valid hex digit''))"
    using string_to_binary_invalid_even_index [OF h1 h2 h3] by simp
  have k1: "2 * 0 < length [CHR 0x00, CHR ''1'']" by simp
  have k2: "\<not> isxdigit ([CHR 0x00, CHR ''1''] ! (2 * 0))" by (simp add: isxdigit_def)
  have k3: "\<forall>j<0. isxdigit ([CHR 0x00, CHR ''1''] ! (2 * j))" by simp
  have b: "string_to_binary [CHR 0x00, CHR ''1''] = Inl (std_exception (''Invalid character: '' @ [CHR 0x27]))"
    using string_to_binary_invalid_even_index [OF k1 k2 k3] by simp
  show ?thesis using h1 h2 h3 a k1 k2 b by simp
qed

text \<open>
  Claim C5. For an odd-length text of hex digits the decoder returns
  \<open>(length + 1) div 2\<close> bytes, and the last byte is the value of the last character
  shifted left by four: the lone character is the high nibble, the low nibble is zero.
\<close>

theorem string_to_binary_odd_trailing:
  assumes "list_all isxdigit t" and "odd (length t)"
  shows "\<exists>bs. string_to_binary t = Inr bs \<and> length bs = (length t + 1) div 2
              \<and> last bs = push_bit 4 (hexValue (last t))"
  using assms
proof (induction t rule: induct_list012)
  case 1
  then show ?case by simp
next
  case (2 c)
  then show ?case by (simp add: string_to_binary_def nibble_of_hexValue)
next
  case (3 c d rest)
  then have c: "isxdigit c" and rest: "list_all isxdigit rest" "odd (length rest)" by simp_all
  from "3.IH"(1) [OF rest] obtain bs where bs: "string_to_binary rest = Inr bs"
    "length bs = (length rest + 1) div 2" "last bs = push_bit 4 (hexValue (last rest))" by blast
  from rest(2) have ne: "rest \<noteq> []" by auto
  with bs(2) have bne: "bs \<noteq> []" by (cases rest) auto
  from string_to_binary_step [OF c, of d] obtain v where
    "string_to_binary (c # d # rest) =
       (case string_to_binary rest of Inl e \<Rightarrow> Inl e | Inr bs \<Rightarrow> Inr (v # bs))" by blast
  then have "string_to_binary (c # d # rest) = Inr (v # bs)" by (simp add: bs)
  moreover have "length (v # bs) = (length (c # d # rest) + 1) div 2" using bs(2) by simp
  moreover have "last (v # bs) = push_bit 4 (hexValue (last (c # d # rest)))" using bne ne bs(3) by simp
  ultimately show ?case by blast
qed

theorem string_to_binary_odd_trailing_witness:
  "list_all isxdigit ''ABC'' \<and> odd (length ''ABC'') \<and>
   (\<exists>bs. string_to_binary ''ABC'' = Inr bs \<and> length bs = (length ''ABC'' + 1) div 2
              \<and> last bs = push_bit 4 (hexValue (last ''ABC'')))"
proof -
  have h1: "list_all isxdigit ''ABC''" by (simp add: isxdigit_def)
  have h2: "odd (length ''ABC'')" by simp
  show ?thesis using h1 h2 string_to_binary_odd_trailing [OF h1 h2] by blast
qed

section \<open>Properties of the allocator and of the operation results\<close>

lemma fill_n_inside: "i < count \<Longrightarrow> fill_n m first count v (first + i) = v"
proof (induction m first count v arbitrary: i rule: fill_n.induct)
  case (1 m first v)
  then show ?case by simp
next
  case (2 m first count v)
  show ?case
  proof (cases i)
    case 0
    have keep: "fill_n m' f' c v a = m' a" if "a < f'" for m' f' c a
      using that by (induction m' f' c v rule: fill_n.induct) auto
    show ?thesis using 0 by (simp add: keep)
  next
    case (Suc j)
    then have "j < count" using "2.prems" by simp
    then have "fill_n (m(first := v)) (Suc first) count v (Suc first + j) = v"
      by (rule "2.IH")
    then show ?thesis by (simp only: Suc fill_n.simps add_Suc_right add_Suc)
  qed
qed

lemma fill_n_outside: "a < first \<or> first + count \<le> a \<Longrightarrow> fill_n m first count v a = m a"
  by (induction m first count v rule: fill_n.induct) auto

lemma size_mult_exact: "n \<le> size_max div sz \<Longrightarrow> size_mult n sz = n * sz"
proof -
  assume a: "n \<le> size_max div sz"
  have "n * sz \<le> size_max"
  proof (cases "sz = 0")
    case True then show ?thesis by simp
  next
    case False
    then have "n * sz \<le> (size_max div sz) * sz" using a by simp
    also have "\<dots> \<le> size_max" by simp
    finally show ?thesis .
  qed
  then show ?thesis by (simp add: size_mult_def)
qed

text \<open>
  Claim C1. When \<open>allocate n\<close> has returned \<open>p\<close> (so \<open>n * sizeof(T)\<close> did not
  overflow), \<open>deallocate p n\<close> on any heap is \<^verbatim>\<open>::operator delete\<close> applied to a heap
  \<open>hz\<close> in which all \<open>n * sizeof(T)\<close> bytes from \<open>p\<close> are already zero: the zeroing
  is done when the block is handed back. The bytes stay zero afterwards and the block
  is no longer live. \<open>deallocate\<close> has a single path.
\<close>

theorem deallocate_zeroes_storage:
  assumes "allocate sizeof_T choice h0 n = Inr (p, h1)"
  shows "\<exists>hz. deallocate sizeof_T h p n = operator_delete hz p
           \<and> (\<forall>i<n * sizeof_T. bytes hz (p + i) = 0)
           \<and> blocks hz = blocks h
           \<and> (\<forall>i<n * sizeof_T. bytes (deallocate sizeof_T h p n) (p + i) = 0)
           \<and> blocks (deallocate sizeof_T h p n) p = None"
proof -
  from assms have le: "n \<le> size_max div sizeof_T"
    by (auto simp: allocate_def split: if_splits)
  have sz: "size_mult n sizeof_T = n * sizeof_T" by (rule size_mult_exact [OF le])
  let ?hz = "h\<lparr>bytes := fill_n (bytes h) p (n * sizeof_T) 0\<rparr>"
  have "deallocate sizeof_T h p n = operator_delete ?hz p"
    by (simp add: deallocate_def sz)
  moreover have "\<forall>i<n * sizeof_T. bytes ?hz (p + i) = 0"
    by (simp add: fill_n_inside)
  moreover have "blocks ?hz = blocks h" by simp
  moreover have "\<forall>i<n * sizeof_T. bytes (deallocate sizeof_T h p n) (p + i) = 0"
    by (simp add: deallocate_def sz operator_delete_def fill_n_inside)
  moreover have "blocks (deallocate sizeof_T h p n) p = None"
    by (simp add: deallocate_def operator_delete_def)
  ultimately show ?thesis by blast
qed

theorem deallocate_zeroes_storage_witness:
  "allocate 2 (Some 4096) empty_heap 3 = Inr (4096, empty_heap\<lparr>blocks := [4096 \<mapsto> 6]\<rparr>)
   \<and> bytes (deallocate 2 (filled_heap 0xAA 4096 6) 4096 3) 4096 = 0
   \<and> bytes (deallocate 2 (filled_heap 0xAA 4096 6) 4096 3) 4101 = 0
   \<and> bytes (deallocate 2 (filled_heap 0xAA 4096 6) 4096 3) 4102 = 0xAA
   \<and> blocks (deallocate 2 (filled_heap 0xAA 4096 6) 4096 3) 4096 = None"
proof -
  have a: "allocate 2 (Some 4096) empty_heap 3 = Inr (4096, empty_heap\<lparr>blocks := [4096 \<mapsto> 6]\<rparr>)"
    by (simp add: allocate_def operator_new_def size_mult_def size_max_def empty_heap_def)
  from deallocate_zeroes_storage [OF a, of "filled_heap 0xAA 4096 6"]
  have z: "\<forall>i<3 * 2. bytes (deallocate 2 (filled_heap 0xAA 4096 6) 4096 3) (4096 + i) = 0"
    and b: "blocks (deallocate 2 (filled_heap 0xAA 4096 6) 4096 3) 4096 = None"
    by blast+
  from z [rule_format, of 0] have z0: "bytes (deallocate 2 (filled_heap 0xAA 4096 6) 4096 3) 4096 = 0"
    by simp
  from z [rule_format, of 5] have z5: "bytes (deallocate 2 (filled_heap 0xAA 4096 6) 4096 3) 4101 = 0"
    by simp
  have out: "bytes (deallocate 2 (filled_heap 0xAA 4096 6) 4096 3) 4102 = 0xAA"
    by (simp add: deallocate_def operator_delete_def size_mult_def size_max_def
        filled_heap_def fill_n_outside)
  show ?thesis using a z0 z5 out b by simp
qed

lemma copy_native_result_props:
  assumes "copy_native_result r = Inr res"
  shows "status res = nr_status r"
    and "status res \<noteq> 0 \<Longrightarrow> data res = []"
    and "status res = 0 \<Longrightarrow> length (data res) = nat (nr_size r)"
    and "status res = 0 \<Longrightarrow> 0 \<le> nr_size r"
    and "status res = 0 \<Longrightarrow> data res = map (nr_data r) [0..<nat (nr_size r)]"
  using assms by (auto simp: copy_native_result_def split: if_splits)

text \<open>
  Claim C2 as stated fails: a native call that succeeds with size \<open>0\<close> gives status
  \<open>0\<close> with an empty payload, and the caller's \<open>data\<close> is the empty string.
\<close>

theorem operation_result_empty_success_counterexample:
  "createPassportKey (engine_returning \<lparr>nr_status = 0, nr_size = 0, nr_data = buffer_of []\<rparr>) ''alice''
     = Inr \<lparr>data = [], status = 0\<rparr>
   \<and> obj_data (convertToObject \<lparr>data = [], status = 0\<rparr>) = Some []"
  by (simp add: createPassportKey_def engine_returning_def copy_native_result_def convertToObject_def
      binary_to_string_def)

text \<open>
  Claim C2, as amended. For the result \<open>res\<close> that any of the four operations builds
  from the native result \<open>r\<close>: the status is the native status; when it is not zero
  the payload is empty and the caller's \<open>data\<close> is \<^verbatim>\<open>null\<close>; when it is zero the
  payload is the first \<open>size\<close> bytes of the native buffer, byte for byte, and the
  caller's \<open>data\<close> is their hex text. The payload is non-empty exactly when the status
  is zero and the reported size is positive.
\<close>

theorem operation_result_payload:
  assumes "(u1 (c_str a) = Inr r \<and> createPassportKey u1 a = Inr res)
         \<or> (u2 (c_str a) c = Inr r \<and> passportSign u2 a c = Inr res)
         \<or> (u3 (c_str a) = Inr r \<and> getPublicKey u3 a = Inr res)
         \<or> (u4 (c_str a) = Inr r \<and> getPublicKeyHash u4 a = Inr res)"
  shows "status res = nr_status r
       \<and> (status res \<noteq> 0 \<longrightarrow> data res = [] \<and> obj_data (convertToObject res) = None)
       \<and> (status res = 0 \<longrightarrow> data res = map (nr_data r) [0..<nat (nr_size r)]
              \<and> length (data res) = nat (nr_size r)
              \<and> obj_data (convertToObject res)
                   = Some (binary_to_string (map (nr_data r) [0..<nat (nr_size r)])))
       \<and> (data res \<noteq> [] \<longleftrightarrow> status res = 0 \<and> 0 < nr_size r)"
proof -
  from assms have c: "copy_native_result r = Inr res"
    by (auto simp: createPassportKey_def passportSign_def getPublicKey_def getPublicKeyHash_def)
  note p = copy_native_result_props [OF c]
  have "data res \<noteq> [] \<longleftrightarrow> status res = 0 \<and> 0 < nr_size r"
  proof (cases "status res = 0")
    case True
    with p(3) have "length (data res) = nat (nr_size r)" by simp
    then show ?thesis using True by (cases "data res") auto
  next
    case False
    with p(2) show ?thesis by simp
  qed
  then show ?thesis using p by (simp add: convertToObject_def OperationResult_ok_def)
qed

theorem operation_result_payload_witness:
  "engine_returning \<lparr>nr_status = 0, nr_size = 2, nr_data = buffer_of [0xAB, 0x0F]\<rparr> (c_str ''alice'')
     = Inr \<lparr>nr_status = 0, nr_size = 2, nr_data = buffer_of [0xAB, 0x0F]\<rparr>
   \<and> createPassportKey (engine_returning \<lparr>nr_status = 0, nr_size = 2, nr_data = buffer_of [0xAB, 0x0F]\<rparr>) ''alice''
     = Inr \<lparr>data = [0xAB, 0x0F], status = 0\<rparr>
   \<and> obj_data (convertToObject \<lparr>data = [0xAB, 0x0F], status = 0\<rparr>) = Some ''AB0F''"
proof -
  let ?r = "\<lparr>nr_status = 0, nr_size = 2, nr_data = buffer_of [0xAB, 0x0F]\<rparr>"
  let ?res = "\<lparr>data = [0xAB, 0x0F], status = 0\<rparr>"
  have h1: "engine_returning ?r (c_str ''alice'') = Inr ?r" by (simp add: engine_returning_def)
  have up: "[0..<2] = [0, Suc 0]" by (simp add: upt_rec)
  have h2: "createPassportKey (engine_returning ?r) ''alice'' = Inr ?res"
    by (simp add: createPassportKey_def engine_returning_def copy_native_result_def buffer_of_def up)
  from operation_result_payload
    [of "engine_returning ?r" "''alice''" ?r ?res "\<lambda>a c. engine_returning ?r a" "[]"
        "engine_returning ?r" "engine_returning ?r"] h1 h2
  have "obj_data (convertToObject ?res) = Some (binary_to_string (data ?res))" by simp
  moreover have "binary_to_string [0xAB, 0x0F] = ''AB0F''"
    by (simp add: binary_to_string_def byte_to_syms_def syms_def)
  ultimately show ?thesis using h1 h2 by simp
qed

section \<open>Properties of the wide strings, the password wrappers and the workers\<close>

lemma wchar_join: "ucast (ucast (w::wchar) :: byte) OR push_bit 8 (ucast (ucast (drop_bit 8 w) :: byte)) = w"
  by (rule bit_word_eqI) (auto simp: bit_simps)

lemma wchar_lo: "(ucast (ucast (lo::byte) OR push_bit 8 (ucast (hi::byte)) :: wchar) :: byte) = lo"
  by (rule bit_word_eqI) (auto simp: bit_simps)

lemma wchar_hi: "(ucast (drop_bit 8 (ucast (lo::byte) OR push_bit 8 (ucast (hi::byte)) :: wchar)) :: byte) = hi"
  by (rule bit_word_eqI) (auto simp: bit_simps dest: bit_imp_le_length)

lemma length_bytes_of_wstring: "length (bytes_of_wstring ws) = 2 * length ws"
  by (induction ws) (simp_all add: bytes_of_wstring_def wchar_bytes_def)

lemma wstring_of_bytes_of_wstring: "wstring_of_bytes (bytes_of_wstring ws) = ws"
  by (induction ws) (simp_all add: bytes_of_wstring_def wchar_bytes_def wchar_join)

lemma wchar_bytes_join: "wchar_bytes (ucast lo OR push_bit 8 (ucast hi)) = [lo, hi]"
  by (simp only: wchar_bytes_def wchar_lo wchar_hi)

lemma bytes_of_wstring_Nil: "bytes_of_wstring [] = []"
  by (simp add: bytes_of_wstring_def)

lemma bytes_of_wstring_Cons: "bytes_of_wstring (w # ws) = wchar_bytes w @ bytes_of_wstring ws"
  by (simp add: bytes_of_wstring_def)

lemma bytes_of_wstring_of_bytes: "even (length bs) \<Longrightarrow> bytes_of_wstring (wstring_of_bytes bs) = bs"
proof (induction bs rule: induct_list012)
  case 1
  then show ?case by (simp add: bytes_of_wstring_Nil)
next
  case (2 x)
  then show ?case by simp
next
  case (3 x y zs)
  then have "bytes_of_wstring (wstring_of_bytes zs) = zs" by simp
  then show ?case by (simp add: bytes_of_wstring_Cons wchar_bytes_join)
qed

lemma length_wstring_of_bytes: "length (wstring_of_bytes bs) = length bs div 2"
  by (induction bs rule: induct_list012) simp_all

lemma memcpy_s_exact:
  "length dest = n \<Longrightarrow> length src = n \<Longrightarrow> memcpy_s dest n src n = (0, src)"
  by (auto simp add: memcpy_s_def)

lemma memcpy_s_short:
  "destSize < count \<Longrightarrow> length dest = destSize \<Longrightarrow>
   memcpy_s dest destSize src count = (ERANGE, replicate destSize 0)"
  by (simp add: memcpy_s_def)

lemma getBytes_eq: "getBytes ws = bytes_of_wstring ws"
proof -
  let ?tmp = "resize [] (length ws * sizeof_wchar_t) :: byte list"
  have l: "length ?tmp = length ws * sizeof_wchar_t"
    by (simp add: resize_def)
  have c: "length (bytes_of_wstring ws) = length ws * sizeof_wchar_t"
    by (simp add: sizeof_wchar_t_def length_bytes_of_wstring)
  have "memcpy_s ?tmp (length ?tmp) (bytes_of_wstring ws) (length ws * sizeof_wchar_t)
          = (0, bytes_of_wstring ws)"
    unfolding l by (rule memcpy_s_exact [OF l c])
  then show ?thesis by (simp add: getBytes_def Let_def)
qed

lemma of_bytes_call_even:
  assumes "even (length d)"
  shows "secure_wstring_of_bytes_memcpy_s d = (0, d)"
proof -
  let ?w = "replicate (length d div sizeof_wchar_t) space"
  have n: "length ?w * sizeof_wchar_t = length d"
    using assms by (simp add: sizeof_wchar_t_def)
  have l: "length (bytes_of_wstring ?w) = length d"
    using assms by (simp add: length_bytes_of_wstring sizeof_wchar_t_def)
  have "memcpy_s (bytes_of_wstring ?w) (length ?w * sizeof_wchar_t) d (length d) = (0, d)"
    unfolding n by (rule memcpy_s_exact [OF l refl])
  then show ?thesis by (simp add: secure_wstring_of_bytes_memcpy_s_def Let_def)
qed

lemma of_bytes_call_odd:
  assumes "odd (length d)"
  shows "secure_wstring_of_bytes_memcpy_s d = (ERANGE, replicate (length d - 1) 0)"
proof -
  let ?w = "replicate (length d div sizeof_wchar_t) space"
  have n: "length ?w * sizeof_wchar_t = length d - 1"
    using assms by (simp add: sizeof_wchar_t_def) presburger
  have lt: "length d - 1 < length d" using assms by (cases d) auto
  have l: "length (bytes_of_wstring ?w) = length d - 1"
    using n by (simp add: length_bytes_of_wstring sizeof_wchar_t_def mult.commute)
  have "memcpy_s (bytes_of_wstring ?w) (length ?w * sizeof_wchar_t) d (length d)
          = (ERANGE, replicate (length d - 1) 0)"
    unfolding n by (rule memcpy_s_short [OF lt l])
  then show ?thesis by (simp add: secure_wstring_of_bytes_memcpy_s_def Let_def)
qed

lemma ERANGE_nonzero: "ERANGE \<noteq> 0"
  by (simp add: ERANGE_def)

lemma of_bytes_even:
  "even (length d) \<Longrightarrow> secure_wstring_of_bytes d = \<lparr>wstr = wstring_of_bytes d, diagnostics = []\<rparr>"
  by (simp add: secure_wstring_of_bytes_def of_bytes_call_even)

lemma of_bytes_odd:
  "odd (length d) \<Longrightarrow> secure_wstring_of_bytes d = \<lparr>wstr = [], diagnostics = []\<rparr>"
  by (simp add: secure_wstring_of_bytes_def of_bytes_call_odd ERANGE_nonzero resize_def)

lemma of_bytes_call_fails_iff: "(fst (secure_wstring_of_bytes_memcpy_s d) \<noteq> 0) = odd (length d)"
  by (cases "even (length d)") (simp_all add: of_bytes_call_even of_bytes_call_odd ERANGE_nonzero)

lemma EILSEQ_nonzero: "EILSEQ \<noteq> 0"
  by (simp add: EILSEQ_def)

lemma of_string_call:
  "secure_wstring_of_string_mbstowcs_s lc str =
     (case lc (c_str str) of
        None \<Rightarrow> (EILSEQ, 0, 0 # replicate (length str) space)
      | Some ws \<Rightarrow> (0, min (length str) (length ws) + 1,
                     take (length str) ws @ [0] @ replicate (length str - min (length str) (length ws)) space))"
proof -
  have t: "take (min n (length xs)) xs = take n xs" for n and xs :: "wchar list"
    by (simp add: min_def)
  show ?thesis
    by (simp add: secure_wstring_of_string_mbstowcs_s_def mbstowcs_s_def Let_def t split: option.splits)
qed

lemma of_string_fails_iff:
  "(fst (secure_wstring_of_string_mbstowcs_s lc str) \<noteq> 0) = (lc (c_str str) = None)"
  by (simp add: of_string_call EILSEQ_nonzero split: option.splits)

lemma of_string_invalid:
  "lc (c_str str) = None \<Longrightarrow>
   secure_wstring_of_string lc str = \<lparr>wstr = [], diagnostics = [''Error creating wide string'']\<rparr>"
  by (simp add: secure_wstring_of_string_def of_string_call EILSEQ_nonzero resize_def)

lemma of_string_valid:
  "lc (c_str str) = Some ws \<Longrightarrow>
   secure_wstring_of_string lc str = \<lparr>wstr = take (length str) ws @ [0], diagnostics = []\<rparr>"
  by (simp add: secure_wstring_of_string_def of_string_call resize_def min_def)

text \<open>
  Claim C6, as amended. Neither constructor throws on a failed conversion, and each
  leaves the string either fully converted or empty. When \<^verbatim>\<open>mbstowcs_s\<close> fails, the
  constructor from narrow text gives the empty string and prints one diagnostic with
  \<^verbatim>\<open>perror\<close>; when it succeeds the string is the whole conversion (with the
  terminator \<^verbatim>\<open>outSize\<close> counts). When \<^verbatim>\<open>memcpy_s\<close> fails, the constructor from
  bytes gives the empty string and prints nothing; when it succeeds the string holds
  all the bytes.
\<close>

theorem conversion_failure_gives_empty:
  "(fst (secure_wstring_of_string_mbstowcs_s lc str) \<noteq> 0 \<longrightarrow>
      secure_wstring_of_string lc str = \<lparr>wstr = [], diagnostics = [''Error creating wide string'']\<rparr>)
   \<and> (fst (secure_wstring_of_string_mbstowcs_s lc str) = 0 \<longrightarrow>
      (\<exists>ws. lc (c_str str) = Some ws
         \<and> secure_wstring_of_string lc str = \<lparr>wstr = take (length str) ws @ [0], diagnostics = []\<rparr>))
   \<and> (fst (secure_wstring_of_bytes_memcpy_s d) \<noteq> 0 \<longrightarrow>
      secure_wstring_of_bytes d = \<lparr>wstr = [], diagnostics = []\<rparr>)
   \<and> (fst (secure_wstring_of_bytes_memcpy_s d) = 0 \<longrightarrow>
      diagnostics (secure_wstring_of_bytes d) = [] \<and> bytes_of_wstring (wstr (secure_wstring_of_bytes d)) = d)"
proof (intro conjI impI)
  assume "fst (secure_wstring_of_string_mbstowcs_s lc str) \<noteq> 0"
  then have "lc (c_str str) = None" by (simp add: of_string_fails_iff)
  then show "secure_wstring_of_string lc str = \<lparr>wstr = [], diagnostics = [''Error creating wide string'']\<rparr>"
    by (rule of_string_invalid)
next
  assume "fst (secure_wstring_of_string_mbstowcs_s lc str) = 0"
  then have "lc (c_str str) \<noteq> None" using of_string_fails_iff [of lc str] by simp
  then obtain ws where ws: "lc (c_str str) = Some ws" by blast
  from of_string_valid [of lc str ws, OF ws] ws
  show "\<exists>ws. lc (c_str str) = Some ws
         \<and> secure_wstring_of_string lc str = \<lparr>wstr = take (length str) ws @ [0], diagnostics = []\<rparr>"
    by blast
next
  assume "fst (secure_wstring_of_bytes_memcpy_s d) \<noteq> 0"
  then have "odd (length d)" by (simp add: of_bytes_call_fails_iff)
  then show "secure_wstring_of_bytes d = \<lparr>wstr = [], diagnostics = []\<rparr>" by (rule of_bytes_odd)
next
  assume "fst (secure_wstring_of_bytes_memcpy_s d) = 0"
  then have e: "even (length d)" using of_bytes_call_fails_iff [of d] by simp
  show "diagnostics (secure_wstring_of_bytes d) = []" by (simp add: of_bytes_even [OF e])
  show "bytes_of_wstring (wstr (secure_wstring_of_bytes d)) = d"
    by (simp add: of_bytes_even [OF e] bytes_of_wstring_of_bytes [OF e])
qed

theorem conversion_failure_gives_empty_witness:
  "fst (secure_wstring_of_string_mbstowcs_s ascii_conv [CHR 0xE9]) \<noteq> 0
   \<and> secure_wstring_of_string ascii_conv [CHR 0xE9] = \<lparr>wstr = [], diagnostics = [''Error creating wide string'']\<rparr>
   \<and> fst (secure_wstring_of_string_mbstowcs_s ascii_conv ''ab'') = 0
   \<and> secure_wstring_of_string ascii_conv ''ab'' = \<lparr>wstr = [0x61, 0x62, 0], diagnostics = []\<rparr>
   \<and> fst (secure_wstring_of_bytes_memcpy_s [0x41, 0x00, 0x42]) \<noteq> 0
   \<and> secure_wstring_of_bytes [0x41, 0x00, 0x42] = \<lparr>wstr = [], diagnostics = []\<rparr>
   \<and> fst (secure_wstring_of_bytes_memcpy_s [0x41, 0x00]) = 0
   \<and> bytes_of_wstring (wstr (secure_wstring_of_bytes [0x41, 0x00])) = [0x41, 0x00]"
proof -
  have c1: "ascii_conv (c_str [CHR 0xE9]) = None" by (simp add: ascii_conv_def c_str_def)
  have c2: "ascii_conv (c_str ''ab'') = Some [0x61, 0x62]" by (simp add: ascii_conv_def c_str_def)
  have h1: "fst (secure_wstring_of_string_mbstowcs_s ascii_conv [CHR 0xE9]) \<noteq> 0"
    by (simp add: of_string_fails_iff c1)
  have h2: "fst (secure_wstring_of_string_mbstowcs_s ascii_conv ''ab'') = 0"
    using of_string_fails_iff [of ascii_conv "''ab''"] c2 by simp
  have h3: "fst (secure_wstring_of_bytes_memcpy_s [0x41, 0x00, 0x42]) \<noteq> 0"
    by (simp add: of_bytes_call_fails_iff)
  have h4: "fst (secure_wstring_of_bytes_memcpy_s [0x41, 0x00]) = 0"
    using of_bytes_call_fails_iff [of "[0x41, 0x00]"] by simp
  from conversion_failure_gives_empty [of ascii_conv "[CHR 0xE9]" "[0x41, 0x00, 0x42]"] h1 h3
  have a: "secure_wstring_of_string ascii_conv [CHR 0xE9] = \<lparr>wstr = [], diagnostics = [''Error creating wide string'']\<rparr>"
    and b: "secure_wstring_of_bytes [0x41, 0x00, 0x42] = \<lparr>wstr = [], diagnostics = []\<rparr>"
    by blast+
  from conversion_failure_gives_empty [of ascii_conv "''ab''" "[0x41, 0x00]"] h2 h4
  have "\<exists>ws. ascii_conv (c_str ''ab'') = Some ws
         \<and> secure_wstring_of_string ascii_conv ''ab'' = \<lparr>wstr = take (length ''ab'') ws @ [0], diagnostics = []\<rparr>"
    and d: "bytes_of_wstring (wstr (secure_wstring_of_bytes [0x41, 0x00])) = [0x41, 0x00]"
    by blast+
  then have c: "secure_wstring_of_string ascii_conv ''ab'' = \<lparr>wstr = [0x61, 0x62, 0], diagnostics = []\<rparr>"
    using c2 by auto
  show ?thesis using h1 a h2 c h3 b h4 d by blast
qed

text \<open>
  Claim C6 as stated fails for the constructor from bytes: on the one-byte vector
  \<^verbatim>\<open>memcpy_s\<close> fails, the result is empty, and no diagnostic is printed.
\<close>

theorem silent_bytes_failure_counterexample:
  "fst (secure_wstring_of_bytes_memcpy_s [0x41]) \<noteq> 0
   \<and> secure_wstring_of_bytes [0x41] = \<lparr>wstr = [], diagnostics = []\<rparr>"
  by (simp add: of_bytes_call_fails_iff of_bytes_odd)

text \<open>
  Claim C10, as amended. For a byte vector of even size the constructor gives
  \<open>size div sizeof(wchar_t)\<close> wide characters and \<open>getBytes\<close> gives the bytes back.
  For a vector of odd size the destination is one byte short of \<open>count\<close>,
  \<^verbatim>\<open>memcpy_s\<close> refuses the copy, and the constructor gives the empty string with
  nothing printed; \<open>getBytes\<close> of it is empty, so the round trip loses the bytes.
\<close>

theorem wstring_of_bytes_length:
  "(even (length d) \<longrightarrow>
      length (wstr (secure_wstring_of_bytes d)) = length d div sizeof_wchar_t
      \<and> getBytes (wstr (secure_wstring_of_bytes d)) = d)
   \<and> (odd (length d) \<longrightarrow>
      secure_wstring_of_bytes d = \<lparr>wstr = [], diagnostics = []\<rparr>
      \<and> getBytes (wstr (secure_wstring_of_bytes d)) = []
      \<and> getBytes (wstr (secure_wstring_of_bytes d)) \<noteq> d)"
proof (intro conjI impI)
  assume e: "even (length d)"
  show "length (wstr (secure_wstring_of_bytes d)) = length d div sizeof_wchar_t"
    by (simp add: of_bytes_even [OF e] length_wstring_of_bytes sizeof_wchar_t_def)
  show "getBytes (wstr (secure_wstring_of_bytes d)) = d"
    by (simp add: of_bytes_even [OF e] getBytes_eq bytes_of_wstring_of_bytes [OF e])
next
  assume o: "odd (length d)"
  show "secure_wstring_of_bytes d = \<lparr>wstr = [], diagnostics = []\<rparr>" by (rule of_bytes_odd [OF o])
  show g: "getBytes (wstr (secure_wstring_of_bytes d)) = []"
    by (simp add: of_bytes_odd [OF o] getBytes_eq bytes_of_wstring_Nil)
  from o have "d \<noteq> []" by auto
  then show "getBytes (wstr (secure_wstring_of_bytes d)) \<noteq> d" using g by simp
qed

theorem wstring_of_bytes_length_witness:
  "even (length [0x41, 0x00 :: byte]) \<and> odd (length [0x41, 0x00, 0x42 :: byte])
   \<and> length (wstr (secure_wstring_of_bytes [0x41, 0x00])) = 1
   \<and> getBytes (wstr (secure_wstring_of_bytes [0x41, 0x00])) = [0x41, 0x00]
   \<and> secure_wstring_of_bytes [0x41, 0x00, 0x42] = \<lparr>wstr = [], diagnostics = []\<rparr>
   \<and> getBytes (wstr (secure_wstring_of_bytes [0x41, 0x00, 0x42])) = []"
proof -
  have e: "even (length [0x41, 0x00 :: byte])" by simp
  have o: "odd (length [0x41, 0x00, 0x42 :: byte])" by simp
  from wstring_of_bytes_length [of "[0x41, 0x00]"] e
  have a: "length (wstr (secure_wstring_of_bytes [0x41, 0x00])) = length [0x41, 0x00 :: byte] div sizeof_wchar_t"
    and b: "getBytes (wstr (secure_wstring_of_bytes [0x41, 0x00])) = [0x41, 0x00]"
    by blast+
  from wstring_of_bytes_length [of "[0x41, 0x00, 0x42]"] o
  have c: "secure_wstring_of_bytes [0x41, 0x00, 0x42] = \<lparr>wstr = [], diagnostics = []\<rparr>"
    and d: "getBytes (wstr (secure_wstring_of_bytes [0x41, 0x00, 0x42])) = []"
    by blast+
  show ?thesis using e o a b c d by (simp add: sizeof_wchar_t_def)
qed

text \<open>
  Claim C10 as stated fails: for three bytes the constructor gives no wide character,
  where \<open>size div sizeof(wchar_t)\<close> is one.
\<close>

theorem wstring_of_odd_bytes_counterexample:
  "length (wstr (secure_wstring_of_bytes [0x41, 0x00, 0x42])) = 0
   \<and> length [0x41, 0x00, 0x42 :: byte] div sizeof_wchar_t = 1"
  by (simp add: of_bytes_odd sizeof_wchar_t_def)


text \<open>
  Claim C7. When \<^verbatim>\<open>util::encrypt\<close> (or \<^verbatim>\<open>util::decrypt\<close>) reports failure, the wrapper
  returns false and the caller's buffer holds what it held; whenever a wrapper returns
  false the buffer is unchanged, and a changed buffer comes only with true.
\<close>

theorem encrypt_decrypt_failure_keeps_data:
  "(\<not> fst (util_encrypt d) \<longrightarrow> encrypt util_encrypt d = Some (False, d))
   \<and> (\<not> fst (util_decrypt d) \<longrightarrow> decrypt util_decrypt d = Some (False, d))
   \<and> (encrypt util_encrypt d = Some (False, d') \<longrightarrow> d' = d)
   \<and> (decrypt util_decrypt d = Some (False, d') \<longrightarrow> d' = d)
   \<and> (encrypt util_encrypt d = Some (b, d') \<and> d' \<noteq> d \<longrightarrow> b)
   \<and> (decrypt util_decrypt d = Some (b, d') \<and> d' \<noteq> d \<longrightarrow> b)"
  by (auto simp: encrypt_def decrypt_def split: prod.splits if_splits option.splits)

theorem encrypt_decrypt_failure_keeps_data_witness:
  "\<not> fst (util_failing [0x70, 0x77]) 
   \<and> encrypt util_failing [0x70, 0x77] = Some (False, [0x70, 0x77])
   \<and> decrypt util_failing [0x70, 0x77] = Some (False, [0x70, 0x77])"
proof -
  have h: "\<not> fst (util_failing [0x70, 0x77])" by (simp add: util_failing_def)
  from encrypt_decrypt_failure_keeps_data [of util_failing "[0x70, 0x77]" util_failing] h
  show ?thesis by blast
qed

text \<open>
  Claim C8. When \<^verbatim>\<open>util::isEncrypted\<close> reports not-ok, \<open>isEncrypted\<close> throws
  \<open>encryptionException\<close>; when it reports ok, \<open>isEncrypted\<close> returns its answer. A
  boolean is returned only when the query succeeded.
\<close>

theorem isEncrypted_throws_when_undetermined:
  "(\<not> snd (util_isEncrypted d) \<longrightarrow>
      isEncrypted util_isEncrypted d = Inl (encryptionException ''Could not check if data is encrypted''))
   \<and> (snd (util_isEncrypted d) \<longrightarrow> isEncrypted util_isEncrypted d = Inr (fst (util_isEncrypted d)))
   \<and> (isEncrypted util_isEncrypted d = Inr b \<longrightarrow> snd (util_isEncrypted d))"
  by (auto simp: isEncrypted_def split: prod.splits if_splits)

theorem isEncrypted_throws_when_undetermined_witness:
  "\<not> snd (util_undetermined [0x70, 0x77])
   \<and> isEncrypted util_undetermined [0x70, 0x77]
       = Inl (encryptionException ''Could not check if data is encrypted'')"
proof -
  have h: "\<not> snd (util_undetermined [0x70, 0x77])" by (simp add: util_undetermined_def)
  from isEncrypted_throws_when_undetermined [of util_undetermined "[0x70, 0x77]"] h
  show ?thesis by blast
qed

lemma catch_all_fields:
  "deferred (catch_all w e) = deferred w" "w_status (catch_all w e) = w_status w"
  "w_data (catch_all w e) = w_data w" "error_message (catch_all w e) = catch_message e"
  by (simp_all add: catch_all_def SetError_def)

lemma store_result_fields:
  "deferred (store_result w res) = deferred w" "error_message (store_result w res) = error_message w"
  "w_status (store_result w res) = status res"
  "status res = 0 \<Longrightarrow> w_data (store_result w res) = binary_to_string (data res)"
  by (simp_all add: store_result_def OperationResult_ok_def Let_def)

lemma complete_after_catch:
  assumes "deferred w = []" and "w_status w = 1"
  shows "deferred (OnWorkComplete (catch_all w e)) =
     [if catch_message e = []
      then Resolve \<lparr>obj_status = 1, obj_ok = False, obj_data = None\<rparr>
      else Reject (catch_message e)]"
  using assms by (simp add: OnWorkComplete_def OnOK_def OnError_def catch_all_fields Let_def)

lemma complete_after_store:
  assumes "deferred w = []" and "error_message w = []"
  shows "deferred (OnWorkComplete (store_result w res)) = [Resolve (convertToObject res)]"
  using assms
  by (simp add: OnWorkComplete_def OnOK_def store_result_fields Let_def convertToObject_def
      OperationResult_ok_def)

lemma failure_after_catch:
  "failure_completion (if m = [] then Resolve \<lparr>obj_status = 1, obj_ok = False, obj_data = None\<rparr> else Reject m)"
  by simp

lemma worker_completion:
  assumes "deferred w = []" and "w_status w = 1" and "error_message w = []"
  shows "\<exists>s. deferred (OnWorkComplete (case body of Inr res \<Rightarrow> store_result w res | Inl e \<Rightarrow> catch_all w e)) = [s]
      \<and> (case body of
            Inl e \<Rightarrow> failure_completion s
                     \<and> s = (if catch_message e = []
                            then Resolve \<lparr>obj_status = 1, obj_ok = False, obj_data = None\<rparr>
                            else Reject (catch_message e))
          | Inr res \<Rightarrow> s = Resolve (convertToObject res))"
proof (cases body)
  case (Inl e)
  then show ?thesis
    using complete_after_catch [OF assms(1,2), of e] by (simp only: sum.case failure_after_catch) simp
next
  case (Inr res)
  then show ?thesis
    using complete_after_store [OF assms(1,3), of res] by simp
qed

text \<open>
  Claim C9. For both workers, a request makes exactly one call on its deferred
  promise. When the \<^verbatim>\<open>try\<close> block of \<^verbatim>\<open>Execute\<close> throws, the exception is caught
  and the call is a failure: the promise is rejected with the message of the handler,
  or, when that message is empty, resolved with status \<open>1\<close>, \<open>ok\<close> false and
  \<^verbatim>\<open>null\<close> data. When the block ends normally, the promise is resolved with the
  object \<open>convertToObject\<close> builds for the result.
\<close>

theorem async_completes_exactly_once:
  "(\<exists>s. deferred (createPassportKeyAsync u acc) = [s]
      \<and> (case createPassportKeyWorker_try u (createPassportKeyWorker acc) of
            Inl e \<Rightarrow> failure_completion s
                     \<and> s = (if catch_message e = []
                            then Resolve \<lparr>obj_status = 1, obj_ok = False, obj_data = None\<rparr>
                            else Reject (catch_message e))
          | Inr res \<Rightarrow> s = Resolve (convertToObject res)))
   \<and> (\<exists>s. deferred (passportSignAsync u' acc chal) = [s]
      \<and> (case passportSignWorker_try u' (passportSignWorker acc chal) of
            Inl e \<Rightarrow> failure_completion s
                     \<and> s = (if catch_message e = []
                            then Resolve \<lparr>obj_status = 1, obj_ok = False, obj_data = None\<rparr>
                            else Reject (catch_message e))
          | Inr res \<Rightarrow> s = Resolve (convertToObject res)))"
proof
  have "deferred (createPassportKeyWorker acc) = []" "w_status (createPassportKeyWorker acc) = 1"
    "error_message (createPassportKeyWorker acc) = []"
    by (simp_all add: createPassportKeyWorker_def)
  from worker_completion [OF this]
  show "\<exists>s. deferred (createPassportKeyAsync u acc) = [s]
      \<and> (case createPassportKeyWorker_try u (createPassportKeyWorker acc) of
            Inl e \<Rightarrow> failure_completion s
                     \<and> s = (if catch_message e = []
                            then Resolve \<lparr>obj_status = 1, obj_ok = False, obj_data = None\<rparr>
                            else Reject (catch_message e))
          | Inr res \<Rightarrow> s = Resolve (convertToObject res))"
    unfolding createPassportKeyAsync_def createPassportKeyWorker_Execute_def .
next
  have "deferred (passportSignWorker acc chal) = []" "w_status (passportSignWorker acc chal) = 1"
    "error_message (passportSignWorker acc chal) = []"
    by (simp_all add: passportSignWorker_def)
  from worker_completion [OF this]
  show "\<exists>s. deferred (passportSignAsync u' acc chal) = [s]
      \<and> (case passportSignWorker_try u' (passportSignWorker acc chal) of
            Inl e \<Rightarrow> failure_completion s
                     \<and> s = (if catch_message e = []
                            then Resolve \<lparr>obj_status = 1, obj_ok = False, obj_data = None\<rparr>
                            else Reject (catch_message e))
          | Inr res \<Rightarrow> s = Resolve (convertToObject res))"
    unfolding passportSignAsync_def passportSignWorker_Execute_def .
qed

end
